theory Spec2Isabelle
  imports Complex_Main "HOL-Library.Multiset"
begin

section \<open>Python values, exceptions and interpreter state\<close>

text \<open>
  The sample project is two Python files: \<^verbatim>\<open>redherring.py\<close> defines four operations and
  \<^verbatim>\<open>main.py\<close> is a script that calls four operations and prints what they return. A
  call runs in an interpreter state and either returns a value or raises; both are
  written out. The state holds what a call could touch: the text written to standard
  output and the attribute dictionaries of the instances on the heap (an instance is its
  index in the heap).
\<close>

datatype pyerror = ZeroDivisionError | OverflowError | AttributeError

type_synonym pyobject = "string \<rightharpoonup> string"

record pystate =
  stdout :: string
  heap :: "pyobject list"

type_synonym 'a py = "pystate \<Rightarrow> (pyerror + 'a) \<times> pystate"

definition py_return :: "'a \<Rightarrow> 'a py" where
  "py_return x st = (Inr x, st)"

text \<open>Sequencing of two statements: an exception of the first skips the second.\<close>

definition py_bind :: "'a py \<Rightarrow> ('a \<Rightarrow> 'b py) \<Rightarrow> 'b py" where
  "py_bind m f st = (case m st of (Inl e, st') \<Rightarrow> (Inl e, st') | (Inr x, st') \<Rightarrow> f x st')"

text \<open>An expression that reads no state: its value or its exception, the state as it was.\<close>

definition py_lift :: "pyerror + 'a \<Rightarrow> 'a py" where
  "py_lift r st = (r, st)"

subsection \<open>Instances and attributes\<close>

text \<open>\<^verbatim>\<open>object.__new__\<close>: a fresh instance with no attributes, at the end of the heap.\<close>

definition new_object :: "nat py" where
  "new_object st = (Inr (length (heap st)), st\<lparr>heap := heap st @ [Map.empty]\<rparr>)"

text \<open>\<^verbatim>\<open>self.attr\<close>: AttributeError when the instance has no such attribute.\<close>

definition getattr :: "nat \<Rightarrow> string \<Rightarrow> string py" where
  "getattr self attr st =
     (if self < length (heap st)
      then (case (heap st ! self) attr of
              None \<Rightarrow> (Inl AttributeError, st)
            | Some v \<Rightarrow> (Inr v, st))
      else (Inl AttributeError, st))"

text \<open>\<^verbatim>\<open>self.attr = v\<close>\<close>

definition setattr :: "nat \<Rightarrow> string \<Rightarrow> string \<Rightarrow> unit py" where
  "setattr self attr v st =
     (if self < length (heap st)
      then (Inr (), st\<lparr>heap := (heap st)[self := (heap st ! self)(attr \<mapsto> v)]\<rparr>)
      else (Inl AttributeError, st))"

subsection \<open>Formatted string literals\<close>

text \<open>
  An f-string is the concatenation of its literal parts and its replacement fields; a
  field holding a \<^verbatim>\<open>str\<close> with no format specification is the string itself.
\<close>

definition fstring :: "string list \<Rightarrow> string" where
  "fstring parts = concat parts"

subsection \<open>The built-in \<^verbatim>\<open>sum\<close>\<close>

text \<open>\<^verbatim>\<open>sum(iterable)\<close> starts from 0 and adds the items from left to right.\<close>

definition py_sum :: "int list \<Rightarrow> int" where
  "py_sum numbers = foldl (+) 0 numbers"

section \<open>Floats\<close>

text \<open>
  A Python \<^verbatim>\<open>float\<close> is an IEEE 754 binary64 value. A finite one is kept as its sign
  (\<open>True\<close> for negative, so that \<open>-0.0\<close> differs from \<open>0.0\<close>) and its magnitude, a
  rational \<open>m * 2 ^ e\<close> with \<open>m < 2 ^ 53\<close> and \<open>- 1074 \<le> e\<close>, below \<open>2 ^ 1024\<close>.
\<close>

datatype pyfloat = Finite bool rat | Infinity bool | NaN

text \<open>The number of digits of \<open>n\<close> in base \<open>b\<close> (\<^verbatim>\<open>int.bit_length\<close> for \<open>b = 2\<close>).\<close>

function digit_count :: "int \<Rightarrow> int \<Rightarrow> nat" where
  "digit_count b n = (if n \<le> 0 \<or> b < 2 then 0 else Suc (digit_count b (n div b)))"
  by pat_completeness auto
termination
proof (relation "measure (\<lambda>(b, n). nat n)")
  fix b n :: int
  assume "\<not> (n \<le> 0 \<or> b < 2)"
  then have "0 < n" and "2 \<le> b"
    by simp_all
  then have "n div b < n"
    by (simp add: int_div_less_self)
  with \<open>0 < n\<close> show "((b, n div b), (b, n)) \<in> measure (\<lambda>(b, n). nat n)"
    by simp
qed simp

declare digit_count.simps [simp del]

text \<open>For \<open>0 < x\<close>, the integer \<open>e\<close> with \<open>b ^ e \<le> x < b ^ (e + 1)\<close>.\<close>

definition floor_log :: "int \<Rightarrow> rat \<Rightarrow> int" where
  "floor_log b x =
     (if 1 \<le> x then int (digit_count b \<lfloor>x\<rfloor>) - 1
      else - int (digit_count b (\<lceil>1 / x\<rceil> - 1)))"

definition round_half_even :: "rat \<Rightarrow> int" where
  "round_half_even r =
     (let f = \<lfloor>r\<rfloor>; d = r - of_int f
      in if d < 1 / 2 then f else if 1 / 2 < d then f + 1 else if even f then f else f + 1)"

text \<open>
  Rounding of a magnitude to binary64, to nearest with ties to even: 53 significant bits,
  the exponent not below that of the subnormals, and no bound above (a result of
  \<open>2 ^ 1024\<close> or more is an overflow, which each operation treats in its own way).
\<close>

definition round_binary64 :: "rat \<Rightarrow> rat" where
  "round_binary64 x =
     (if x = 0 then 0
      else let e = max (floor_log 2 x) (- 1022); q = 2 powi (e - 52)
           in of_int (round_half_even (x / q)) * q)"

text \<open>\<^verbatim>\<open>float(i)\<close> of an \<^verbatim>\<open>int\<close>: correctly rounded, OverflowError when too large.\<close>

definition int_to_float :: "int \<Rightarrow> pyerror + pyfloat" where
  "int_to_float i =
     (let m = round_binary64 (of_int \<bar>i\<bar>)
      in if 2 ^ 1024 \<le> m then Inl OverflowError else Inr (Finite (i < 0) m))"

text \<open>
  \<^verbatim>\<open>a / b\<close> of two \<^verbatim>\<open>int\<close>s: the quotient correctly rounded, ZeroDivisionError for a
  zero divisor, OverflowError when the result is too large for a float.
\<close>

definition int_true_divide :: "int \<Rightarrow> int \<Rightarrow> pyerror + pyfloat" where
  "int_true_divide a b =
     (if b = 0 then Inl ZeroDivisionError
      else let m = round_binary64 (of_int \<bar>a\<bar> / of_int \<bar>b\<bar>)
           in if 2 ^ 1024 \<le> m then Inl OverflowError
              else Inr (Finite ((a < 0) \<noteq> (b < 0)) m))"

text \<open>\<^verbatim>\<open>x * y\<close> of two floats: the IEEE product, which overflows to an infinity.\<close>

fun float_mul :: "pyfloat \<Rightarrow> pyfloat \<Rightarrow> pyfloat" where
  "float_mul (Finite s m) (Finite t n) =
     (let r = round_binary64 (m * n)
      in if 2 ^ 1024 \<le> r then Infinity (s \<noteq> t) else Finite (s \<noteq> t) r)"
| "float_mul (Finite s m) (Infinity t) = (if m = 0 then NaN else Infinity (s \<noteq> t))"
| "float_mul (Infinity s) (Finite t n) = (if n = 0 then NaN else Infinity (s \<noteq> t))"
| "float_mul (Infinity s) (Infinity t) = Infinity (s \<noteq> t)"
| "float_mul NaN y = NaN"
| "float_mul x NaN = NaN"

text \<open>\<^verbatim>\<open>i * x\<close> of an \<^verbatim>\<open>int\<close> and a float: the \<^verbatim>\<open>int\<close> is converted first.\<close>

definition int_mul_float :: "int \<Rightarrow> pyfloat \<Rightarrow> pyerror + pyfloat" where
  "int_mul_float i x = (case int_to_float i of Inl e \<Rightarrow> Inl e | Inr a \<Rightarrow> Inr (float_mul a x))"

section \<open>Conversion to text and \<^verbatim>\<open>print\<close>\<close>

datatype pyval = PyStr string | PyInt int | PyFloat pyfloat

definition digit_char :: "nat \<Rightarrow> char" where
  "digit_char d = ''0123456789'' ! d"

text \<open>The decimal digits of a non-negative integer.\<close>

function digits_str :: "int \<Rightarrow> string" where
  "digits_str n =
     (if n < 10 then [digit_char (nat n)]
      else digits_str (n div 10) @ [digit_char (nat (n mod 10))])"
  by pat_completeness auto
termination
  by (relation "measure nat") (simp_all add: int_div_less_self)

declare digits_str.simps [simp del]

text \<open>\<^verbatim>\<open>str(i)\<close> of an \<^verbatim>\<open>int\<close>: its decimal digits, after a minus sign when negative.\<close>

definition int_str :: "int \<Rightarrow> string" where
  "int_str i = (if i < 0 then ''-'' @ digits_str (- i) else digits_str i)"

text \<open>
  \<^verbatim>\<open>repr\<close> of a float prints the shortest decimal that reads back as the same float.
  With \<open>10 ^ (k - 1) \<le> x < 10 ^ k\<close>, the decimals of \<open>n\<close> digits next to \<open>x\<close> are
  \<open>lo * 10 ^ (k - n)\<close> and \<open>hi * 10 ^ (k - n)\<close>; the search takes the first \<open>n\<close> for which
  one of them rounds to \<open>x\<close> (17 digits always do), and the nearer of the two when both
  do. The result is the coefficient and its decimal exponent.
\<close>

function shortest_decimal :: "rat \<Rightarrow> int \<Rightarrow> nat \<Rightarrow> int \<times> int" where
  "shortest_decimal x k n =
     (let s = 10 powi (k - int n); lo = \<lfloor>x / s\<rfloor>; hi = lo + 1;
          lo_ok = (round_binary64 (of_int lo * s) = x);
          hi_ok = (round_binary64 (of_int hi * s) = x);
          d_lo = x - of_int lo * s; d_hi = of_int hi * s - x
      in if 17 \<le> n \<or> lo_ok \<or> hi_ok
         then (if lo_ok \<and> \<not> hi_ok then lo
               else if hi_ok \<and> \<not> lo_ok then hi
               else if d_lo < d_hi then lo
               else if d_hi < d_lo then hi
               else if even lo then lo else hi, k - int n)
         else shortest_decimal x k (Suc n))"
  by pat_completeness auto
termination
  by (relation "measure (\<lambda>(x, k, n). 17 - n)") auto

declare shortest_decimal.simps [simp del]

definition strip_zeros :: "string \<Rightarrow> string" where
  "strip_zeros ds = rev (dropWhile (\<lambda>c. c = CHR ''0'') (rev ds))"

definition exponent_str :: "int \<Rightarrow> string" where
  "exponent_str e =
     (if e < 0 then ''-'' else ''+'') @ (if \<bar>e\<bar> < 10 then ''0'' else [])
     @ digits_str \<bar>e\<bar>"

text \<open>
  The digits \<open>ds\<close> stand for \<open>0.ds * 10 ^ decpt\<close>. \<^verbatim>\<open>repr\<close> writes them with an exponent
  when \<open>decpt \<le> - 4\<close> or \<open>16 < decpt\<close>, and otherwise in positional notation with at
  least one digit after the point.
\<close>

definition format_repr :: "string \<Rightarrow> int \<Rightarrow> string" where
  "format_repr ds decpt =
     (let nd = int (length ds)
      in if decpt \<le> - 4 \<or> 16 < decpt
         then take 1 ds @ (if 1 < nd then ''.'' @ drop 1 ds else []) @ ''e''
              @ exponent_str (decpt - 1)
         else if decpt \<le> 0 then ''0.'' @ replicate (nat (- decpt)) CHR ''0'' @ ds
         else if nd \<le> decpt then ds @ replicate (nat (decpt - nd)) CHR ''0'' @ ''.0''
         else take (nat decpt) ds @ ''.'' @ drop (nat decpt) ds)"

definition repr_magnitude :: "rat \<Rightarrow> string" where
  "repr_magnitude m =
     (if m = 0 then ''0.0''
      else let (c, e) = shortest_decimal m (floor_log 10 m + 1) 1; ds = digits_str c
           in format_repr (strip_zeros ds) (e + int (length ds)))"

definition float_repr :: "pyfloat \<Rightarrow> string" where
  "float_repr x =
     (case x of
        Finite s m \<Rightarrow> (if s then ''-'' else []) @ repr_magnitude m
      | Infinity s \<Rightarrow> (if s then ''-inf'' else ''inf'')
      | NaN \<Rightarrow> ''nan'')"

fun py_str :: "pyval \<Rightarrow> string" where
  "py_str (PyStr s) = s"
| "py_str (PyInt i) = int_str i"
| "py_str (PyFloat x) = float_repr x"

text \<open>\<^verbatim>\<open>print(v)\<close> writes \<^verbatim>\<open>str(v)\<close> and a newline to standard output.\<close>

definition print :: "pyval \<Rightarrow> unit py" where
  "print v st = (Inr (), st\<lparr>stdout := stdout st @ py_str v @ [CHR 0x0A]\<rparr>)"

section \<open>redherring.py\<close>

text \<open>
  \<^verbatim>\<open>
  def greet(name):
    return f"Hello, {name}!"
  \<close>
\<close>

definition greet :: "string \<Rightarrow> string py" where
  "greet name = py_return (fstring [''Hello, '', name, ''!''])"

text \<open>
  \<^verbatim>\<open>
  class Redherring:
    def __init__(self, greeting):
      self.greeting = greeting

    def greet_person(self, name):
      return f"{self.greeting}, {name}!"
  \<close>
  \<open>Redherring\<close> is the call of the class: it allocates the instance, runs
  \<^verbatim>\<open>__init__\<close> on it and returns it.
\<close>

definition Redherring_init :: "nat \<Rightarrow> string \<Rightarrow> unit py" where
  "Redherring_init self greeting = setattr self ''greeting'' greeting"

definition Redherring :: "string \<Rightarrow> nat py" where
  "Redherring greeting =
     py_bind new_object (\<lambda>self.
     py_bind (Redherring_init self greeting) (\<lambda>_.
     py_return self))"

definition greet_person :: "nat \<Rightarrow> string \<Rightarrow> string py" where
  "greet_person self name =
     py_bind (getattr self ''greeting'') (\<lambda>greeting.
     py_return (fstring [greeting, '', '', name, ''!'']))"

text \<open>
  \<^verbatim>\<open>
  def calculate_discount(amount: int, percent: int) -> float:
    return amount * (percent / 100)
  \<close>
  The quotient is evaluated first, then the product.
\<close>

definition calculate_discount :: "int \<Rightarrow> int \<Rightarrow> pyfloat py" where
  "calculate_discount amount percent =
     py_bind (py_lift (int_true_divide percent 100)) (\<lambda>rate.
     py_lift (int_mul_float amount rate))"

text \<open>
  \<^verbatim>\<open>
  class ArrayProcessor:
    @staticmethod
    def sum_numbers(numbers: list[int]) -> int:
      return sum(numbers)
  \<close>
\<close>

definition sum_numbers :: "int list \<Rightarrow> int py" where
  "sum_numbers numbers = py_return (py_sum numbers)"

text \<open>A caller that invokes \<^verbatim>\<open>greet_person\<close> on one instance once for each name of a list.\<close>

primrec greet_each :: "nat \<Rightarrow> string list \<Rightarrow> unit py" where
  "greet_each self [] = py_return ()"
| "greet_each self (name # names) =
     py_bind (greet_person self name) (\<lambda>_. greet_each self names)"

section \<open>main.py\<close>

text \<open>
  The script imports \<^verbatim>\<open>greet\<close>, \<^verbatim>\<open>Greeter\<close>, \<^verbatim>\<open>calculate_discount\<close> and
  \<^verbatim>\<open>ArrayProcessor\<close> from a module \<^verbatim>\<open>greeter\<close>. That module is not among the source
  files (\<^verbatim>\<open>redherring.py\<close> defines no \<^verbatim>\<open>Greeter\<close>), so its four operations are taken from
  the specification.
\<close>

text \<open>
  Modelled from the spec: \<^verbatim>\<open>greeter.greet\<close>, missing from the sources. Section 4.1: the
  input is a name string, the output a string of the fixed form \<open>"Hello, {name}!"\<close>; no
  error conditions, no side effects.
\<close>

definition greeter_greet :: "string \<Rightarrow> string py" where
  "greeter_greet name = py_return (''Hello, '' @ name @ ''!'')"

text \<open>
  Modelled from the spec: the class \<^verbatim>\<open>greeter.Greeter\<close>, missing from the sources.
  Section 4.2: constructed with a greeting prefix string, which the instance stores.
\<close>

definition Greeter :: "string \<Rightarrow> nat py" where
  "Greeter prefix =
     py_bind new_object (\<lambda>self.
     py_bind (setattr self ''prefix'' prefix) (\<lambda>_.
     py_return self))"

text \<open>
  Modelled from the spec: \<^verbatim>\<open>Greeter.greet_person\<close>, missing from the sources. Section 4.2:
  given a name string, it returns \<open>"{prefix}, {name}!"\<close>; no side effects.
\<close>

definition Greeter_greet_person :: "nat \<Rightarrow> string \<Rightarrow> string py" where
  "Greeter_greet_person self name =
     py_bind (getattr self ''prefix'') (\<lambda>prefix.
     py_return (prefix @ '', '' @ name @ ''!''))"

text \<open>
  Modelled from the spec: \<^verbatim>\<open>greeter.calculate_discount\<close>, missing from the sources.
  Section 4.3: the output is amount times (percent / 100), as a floating-point value.
\<close>

definition greeter_calculate_discount :: "int \<Rightarrow> int \<Rightarrow> pyfloat py" where
  "greeter_calculate_discount amount percent =
     py_bind (py_lift (int_true_divide percent 100)) (\<lambda>rate.
     py_lift (int_mul_float amount rate))"

text \<open>
  Modelled from the spec: \<^verbatim>\<open>greeter.ArrayProcessor.sum_numbers\<close>, missing from the
  sources. Section 4.4: the output is the arithmetic sum of the sequence, 0 for an empty
  one; no side effects.
\<close>

definition greeter_sum_numbers :: "int list \<Rightarrow> int py" where
  "greeter_sum_numbers numbers = py_return (sum_list numbers)"

text \<open>
  \<^verbatim>\<open>
  def run_greeting_examples():
    message1 = greet("World")
    print(message1)

    greeter_instance = Greeter("Hi")
    message2 = greeter_instance.greet_person("Alice")
    print(message2)
  \<close>
\<close>

definition run_greeting_examples :: "unit py" where
  "run_greeting_examples =
     py_bind (greeter_greet ''World'') (\<lambda>message1.
     py_bind (print (PyStr message1)) (\<lambda>_.
     py_bind (Greeter ''Hi'') (\<lambda>greeter_instance.
     py_bind (Greeter_greet_person greeter_instance ''Alice'') (\<lambda>message2.
     print (PyStr message2)))))"

text \<open>
  The statements of the script, after the import:
  \<^verbatim>\<open>
  run_greeting_examples()

  message3 = calculate_discount(200, 15)
  print(message3)

  result = ArrayProcessor.sum_numbers([1, 2, 3, 4, 5])
  print(result)
  \<close>
\<close>

definition main_py :: "unit py" where
  "main_py =
     py_bind run_greeting_examples (\<lambda>_.
     py_bind (greeter_calculate_discount 200 15) (\<lambda>message3.
     py_bind (print (PyFloat message3)) (\<lambda>_.
     py_bind (greeter_sum_numbers [1, 2, 3, 4, 5]) (\<lambda>result.
     print (PyInt result)))))"

section \<open>Properties\<close>

subsection \<open>What the calls compute\<close>

lemma py_sum_sum_list: "py_sum xs = sum_list xs"
proof -
  have "foldl (+) a xs = a + sum_list xs" for a :: int
    by (induction xs arbitrary: a) (simp_all add: add.assoc)
  from this [of 0] show ?thesis
    by (simp add: py_sum_def)
qed

lemma Redherring_run:
  "Redherring p st = (Inr (length (heap st)), st\<lparr>heap := heap st @ [[''greeting'' \<mapsto> p]]\<rparr>)"
  by (simp add: Redherring_def Redherring_init_def new_object_def setattr_def py_bind_def
      py_return_def)

lemma greet_person_run:
  "greet_person self n st =
     (if self < length (heap st)
      then (case (heap st ! self) ''greeting'' of
              None \<Rightarrow> (Inl AttributeError, st)
            | Some g \<Rightarrow> (Inr (g @ '', '' @ n @ ''!''), st))
      else (Inl AttributeError, st))"
  by (simp add: greet_person_def getattr_def py_bind_def py_return_def fstring_def
      split: option.split)

lemma greet_person_state: "snd (greet_person self n st) = st"
  by (simp add: greet_person_run split: option.split)

lemma greet_each_state: "snd (greet_each self names st) = st"
proof (induction names)
  case Nil
  show ?case
    by (simp add: py_return_def)
next
  case (Cons name names)
  obtain r where r: "greet_person self name st = (r, st)"
    using greet_person_state [of self name st] by (cases "greet_person self name st") simp
  show ?case
    using Cons.IH by (cases r) (simp_all add: py_bind_def r)
qed

lemma greet_each_stored:
  assumes "self < length (heap st)" and "(heap st ! self) ''greeting'' = Some g"
  shows "greet_each self names st = (Inr (), st)"
  using assms by (induction names) (simp_all add: py_return_def py_bind_def greet_person_run)

subsection \<open>Rounding to binary64\<close>

text \<open>
  The exponent that \<open>floor_log\<close> computes encloses its argument, so a rounded
  magnitude above the subnormals is within half a unit in the last place: a relative
  error of at most \<open>2 ^ - 53\<close>.
\<close>

lemma digit_count_bounds:
  "0 < n \<Longrightarrow> 2 \<le> b \<Longrightarrow> 0 < digit_count b n
     \<and> b ^ (digit_count b n - 1) \<le> n \<and> n < b ^ digit_count b n"
proof (induction b n rule: digit_count.induct)
  case (1 b n)
  have n: "0 < n" and b: "2 \<le> b"
    using "1.prems" by simp_all
  have unfold: "digit_count b n = Suc (digit_count b (n div b))"
    using n b by (subst digit_count.simps) simp
  have split: "n = b * (n div b) + n mod b"
    by simp
  have rem: "0 \<le> n mod b" "n mod b < b"
    using b by simp_all
  show ?case
  proof (cases "0 < n div b")
    case False
    then have zero: "digit_count b (n div b) = 0"
      by (subst digit_count.simps) simp
    from False have "n div b = 0"
      using n b by (simp add: div_int_pos_iff order.antisym)
    with split rem have "n < b"
      by simp
    with n unfold zero show ?thesis
      by simp
  next
    case True
    let ?d = "digit_count b (n div b)"
    from True b n "1.IH" have IH: "0 < ?d" "b ^ (?d - 1) \<le> n div b" "n div b < b ^ ?d"
      by simp_all
    from IH(1) have "b ^ ?d = b * b ^ (?d - 1)"
      by (cases ?d) simp_all
    also have "\<dots> \<le> b * (n div b)"
      using IH(2) b by (intro mult_left_mono) simp_all
    also have "\<dots> \<le> n"
      using split rem by linarith
    finally have lower: "b ^ ?d \<le> n" .
    from IH(3) have "n div b + 1 \<le> b ^ ?d"
      by simp
    then have "b * (n div b + 1) \<le> b * b ^ ?d"
      using b by (intro mult_left_mono) simp_all
    moreover have "n < b * (n div b + 1)"
    proof -
      from split rem have "n < b * (n div b) + b"
        by linarith
      then show ?thesis
        by (simp add: algebra_simps)
    qed
    ultimately have upper: "n < b ^ Suc ?d"
      by simp
    from lower upper unfold show ?thesis
      by simp
  qed
qed

lemma floor_log_2_bounds:
  assumes "0 < x"
  shows "2 powi (floor_log 2 x) \<le> x" and "x < 2 powi (floor_log 2 x + 1)"
proof -
  have "2 powi (floor_log 2 x) \<le> x \<and> x < 2 powi (floor_log 2 x + 1)"
  proof (cases "1 \<le> x")
    case True
    let ?N = "\<lfloor>x\<rfloor>"
    let ?d = "digit_count 2 ?N"
    from True have N: "0 < ?N"
      by simp
    from digit_count_bounds [OF N, of 2]
    have d: "0 < ?d" "2 ^ (?d - 1) \<le> ?N" "?N < 2 ^ ?d"
      by simp_all
    have fl: "floor_log 2 x = int ?d - 1"
      using True by (simp add: floor_log_def)
    have e1: "(2::rat) powi (int ?d - 1) = 2 ^ (?d - 1)"
      using d(1) by (simp add: power_int_nonneg_exp nat_diff_distrib')
    have e2: "(2::rat) powi (int ?d - 1 + 1) = 2 ^ ?d"
      by simp
    have "(2::rat) ^ (?d - 1) \<le> of_int ?N"
      using d(2) by (metis of_int_le_iff of_int_numeral of_int_power)
    also have "\<dots> \<le> x"
      by simp
    finally have lower: "(2::rat) ^ (?d - 1) \<le> x" .
    from d(3) have "?N + 1 \<le> 2 ^ ?d"
      by simp
    then have "of_int (?N + 1) \<le> (2::rat) ^ ?d"
      by (metis of_int_le_iff of_int_numeral of_int_power)
    moreover have "x < of_int (?N + 1)"
      by linarith
    ultimately have upper: "x < (2::rat) ^ ?d"
      by simp
    from lower upper show ?thesis
      by (simp only: fl e1 e2)
  next
    case False
    let ?y = "1 / x"
    let ?M = "\<lceil>?y\<rceil> - 1"
    let ?c = "digit_count 2 ?M"
    from False assms have y: "1 < ?y"
      by simp
    then have M: "0 < ?M"
      by linarith
    from digit_count_bounds [OF M, of 2]
    have c: "0 < ?c" "2 ^ (?c - 1) \<le> ?M" "?M < 2 ^ ?c"
      by simp_all
    have fl: "floor_log 2 x = - int ?c"
      using False by (simp add: floor_log_def)
    have e1: "(2::rat) powi (- int ?c) = 1 / 2 ^ ?c"
      by (simp add: power_int_minus_divide)
    have e2: "(2::rat) powi (- int ?c + 1) = 1 / 2 ^ (?c - 1)"
    proof -
      have "- int ?c + 1 = - int (?c - 1)"
        using c(1) by simp
      then show ?thesis
        by (simp only: power_int_minus_divide power_int_of_nat)
    qed
    from c(3) have "?M + 1 \<le> 2 ^ ?c"
      by simp
    then have "of_int (?M + 1) \<le> (2::rat) ^ ?c"
      by (metis of_int_le_iff of_int_numeral of_int_power)
    moreover have "?y \<le> of_int (?M + 1)"
      by simp
    ultimately have "?y \<le> 2 ^ ?c"
      by (rule order.trans [rotated])
    then have lower: "1 / 2 ^ ?c \<le> x"
      using assms by (simp add: field_simps)
    have "(2::rat) ^ (?c - 1) \<le> of_int ?M"
      using c(2) by (metis of_int_le_iff of_int_numeral of_int_power)
    also have "\<dots> < ?y"
      by linarith
    finally have "(2::rat) ^ (?c - 1) < 1 / x" .
    then have upper: "x < 1 / 2 ^ (?c - 1)"
      using assms by (simp add: field_simps)
    from lower upper show ?thesis
      by (simp only: fl e1 e2)
  qed
  then show "2 powi (floor_log 2 x) \<le> x" and "x < 2 powi (floor_log 2 x + 1)"
    by simp_all
qed

lemma round_half_even_near: "\<bar>of_int (round_half_even r) - r\<bar> \<le> 1 / 2"
proof -
  have "of_int \<lfloor>r\<rfloor> \<le> r" and "r < of_int \<lfloor>r\<rfloor> + 1"
    by linarith+
  then show ?thesis
    by (auto simp add: round_half_even_def Let_def abs_le_iff)
qed

lemma round_binary64_error:
  assumes "2 powi (- 1022) \<le> x"
  shows "\<bar>round_binary64 x - x\<bar> \<le> x / 2 ^ 53"
proof -
  have pos: "0 < x"
    using assms by (rule order.strict_trans2 [rotated]) simp
  let ?e = "floor_log 2 x"
  let ?q = "(2::rat) powi (?e - 52)"
  have lt: "2 powi (- 1022) < (2::rat) powi (?e + 1)"
    using assms floor_log_2_bounds(2) [OF pos] by (rule order.strict_trans1)
  have "- 1022 < ?e + 1"
  proof (rule ccontr)
    assume "\<not> - 1022 < ?e + 1"
    then have "?e + 1 \<le> - 1022"
      by simp
    then have "(2::rat) powi (?e + 1) \<le> 2 powi (- 1022)"
      by (rule power_int_increasing) simp
    with lt show False
      by linarith
  qed
  then have e: "max ?e (- 1022) = ?e"
    by simp
  have q: "0 < ?q"
    by simp
  have r: "round_binary64 x = of_int (round_half_even (x / ?q)) * ?q"
    using pos by (simp add: round_binary64_def Let_def e)
  have "round_binary64 x - x = (of_int (round_half_even (x / ?q)) - x / ?q) * ?q"
    using q by (simp add: r left_diff_distrib)
  then have "\<bar>round_binary64 x - x\<bar> = \<bar>of_int (round_half_even (x / ?q)) - x / ?q\<bar> * ?q"
    using q by (simp only: abs_mult abs_of_pos)
  also have "\<dots> \<le> 1 / 2 * ?q"
    using q round_half_even_near by (intro mult_right_mono) simp_all
  also have "\<dots> = 2 powi ?e / 2 ^ 53"
    by (simp add: power_int_diff)
  also have "\<dots> \<le> x / 2 ^ 53"
    using floor_log_2_bounds(1) [OF pos] by (simp add: divide_right_mono)
  finally show ?thesis .
qed

lemma round_binary64_range:
  assumes "x = 0 \<or> 2 powi (- 1022) \<le> x"
  shows "x * (1 - 1 / 2 ^ 53) \<le> round_binary64 x" and "round_binary64 x \<le> x * (1 + 1 / 2 ^ 53)"
proof -
  define d where "d = x / 2 ^ 53"
  have "\<bar>round_binary64 x - x\<bar> \<le> d"
  proof (cases "x = 0")
    case True
    then show ?thesis
      by (simp add: round_binary64_def d_def)
  next
    case False
    with assms have "2 powi (- 1022) \<le> x"
      by blast
    then show ?thesis
      unfolding d_def by (rule round_binary64_error)
  qed
  then have near: "x - d \<le> round_binary64 x" "round_binary64 x \<le> x + d"
    by linarith+
  have "x * (1 - 1 / 2 ^ 53) = x - d" and "x * (1 + 1 / 2 ^ 53) = x + d"
    by (simp_all add: d_def algebra_simps)
  with near show "x * (1 - 1 / 2 ^ 53) \<le> round_binary64 x"
    and "round_binary64 x \<le> x * (1 + 1 / 2 ^ 53)"
    by (simp_all only:)
qed

lemma round_binary64_no_overflow:
  assumes "x = 0 \<or> 2 powi (- 1022) \<le> x" and "x < 2 ^ 1023"
  shows "\<not> 2 ^ 1024 \<le> round_binary64 x"
proof -
  have nonneg: "0 \<le> x"
    using assms(1) by (rule disjE) (simp, rule order.trans [rotated], assumption, simp)
  have "(1::rat) + 1 / 2 ^ 53 \<le> 2"
    by simp
  with nonneg have "x * (1 + 1 / 2 ^ 53) \<le> x * 2"
    by (rule mult_left_mono [rotated])
  with round_binary64_range(2) [OF assms(1)] have "round_binary64 x \<le> x * 2"
    by (rule order.trans)
  also have "\<dots> < 2 ^ 1023 * 2"
    using assms(2) by simp
  also have "\<dots> = (2::rat) ^ 1024"
    by simp
  finally show ?thesis
    by simp
qed

lemma round_half_even_floor: "\<lfloor>r\<rfloor> \<le> round_half_even r"
  by (simp add: round_half_even_def Let_def)

lemma round_binary64_overflow:
  assumes "2 ^ 1024 \<le> x"
  shows "2 ^ 1024 \<le> round_binary64 x"
proof -
  have big: "(2::rat) powi 1024 \<le> x"
    using assms by simp
  have pos: "0 < x"
    using assms by (rule order.strict_trans2 [rotated]) simp
  let ?e = "floor_log 2 x"
  let ?q = "(2::rat) powi (?e - 52)"
  have "(2::rat) powi 1024 < 2 powi (?e + 1)"
    using big floor_log_2_bounds(2) [OF pos] by (rule order.strict_trans1)
  have e: "1024 \<le> ?e"
  proof (rule ccontr)
    assume "\<not> 1024 \<le> ?e"
    then have "?e + 1 \<le> 1024"
      by simp
    then have "(2::rat) powi (?e + 1) \<le> 2 powi 1024"
      by (rule power_int_increasing) simp
    with \<open>2 powi 1024 < 2 powi (?e + 1)\<close> show False
      by linarith
  qed
  then have m: "max ?e (- 1022) = ?e"
    by simp
  have q: "0 < ?q"
    by simp
  have r: "round_binary64 x = of_int (round_half_even (x / ?q)) * ?q"
    using pos by (simp add: round_binary64_def Let_def m)
  have "(2::rat) powi ?e / ?q = 2 ^ 52"
    by (simp add: power_int_diff)
  moreover have "2 powi ?e / ?q \<le> x / ?q"
    using floor_log_2_bounds(1) [OF pos] q by (simp add: divide_right_mono)
  ultimately have "of_int (2 ^ 52) \<le> x / ?q"
    by simp
  then have "2 ^ 52 \<le> \<lfloor>x / ?q\<rfloor>"
    by (simp only: le_floor_iff)
  with round_half_even_floor [of "x / ?q"] have "2 ^ 52 \<le> round_half_even (x / ?q)"
    by (rule order.trans [rotated])
  then have "(of_int (2 ^ 52) :: rat) \<le> of_int (round_half_even (x / ?q))"
    by (simp only: of_int_le_iff)
  then have "of_int (2 ^ 52) * ?q \<le> of_int (round_half_even (x / ?q)) * ?q"
    using q by (intro mult_right_mono) simp_all
  moreover have "of_int (2 ^ 52) * ?q = 2 powi ?e"
    by (simp add: power_int_diff)
  moreover have "(2::rat) powi 1024 \<le> 2 powi ?e"
    using e by (intro power_int_increasing) simp_all
  ultimately have "(2::rat) powi 1024 \<le> round_binary64 x"
    by (simp only: r)
  then show ?thesis
    by simp
qed

lemma round_1: "round_binary64 1 = 1"
  by code_simp

lemma calculate_discount_value:
  assumes "0 \<le> a" and "0 \<le> p"
    and "\<not> 2 ^ 1024 \<le> round_binary64 (of_int p / 100)"
    and "\<not> 2 ^ 1024 \<le> round_binary64 (of_int a)"
    and "\<not> 2 ^ 1024 \<le> round_binary64 (round_binary64 (of_int a) * round_binary64 (of_int p / 100))"
  shows "calculate_discount a p st
    = (Inr (Finite False
         (round_binary64 (round_binary64 (of_int a) * round_binary64 (of_int p / 100)))), st)"
  using assms
  by (simp add: calculate_discount_def py_bind_def py_lift_def int_true_divide_def
      int_mul_float_def int_to_float_def Let_def)

subsection \<open>The floats of the script\<close>

lemma round_3_20: "round_binary64 (3 / 20) = 5404319552844595 / 36028797018963968"
  by code_simp

lemma round_200: "round_binary64 200 = 200"
  by code_simp

lemma round_product: "round_binary64 (135107988821114875 / 4503599627370496) = 30"
  by code_simp

lemma true_divide_15_100:
  "int_true_divide 15 100 = Inr (Finite False (5404319552844595 / 36028797018963968))"
  by (simp add: int_true_divide_def Let_def round_3_20)

lemma int_mul_float_200:
  "int_mul_float 200 (Finite False (5404319552844595 / 36028797018963968))
     = Inr (Finite False 30)"
  by (simp add: int_mul_float_def int_to_float_def Let_def round_200 round_product)

lemma repr_30: "float_repr (Finite False 30) = ''30.0''"
  by code_simp

lemma str_15: "int_str 15 = ''15''"
  by code_simp

lemma Greeter_run:
  "Greeter p st = (Inr (length (heap st)), st\<lparr>heap := heap st @ [[''prefix'' \<mapsto> p]]\<rparr>)"
  by (simp add: Greeter_def new_object_def setattr_def py_bind_def py_return_def)

lemma run_greeting_examples_run:
  "run_greeting_examples st =
     (Inr (), st\<lparr>stdout := stdout st @ ''Hello, World!'' @ [CHR 0x0A] @ ''Hi, Alice!''
                          @ [CHR 0x0A],
                  heap := heap st @ [[''prefix'' \<mapsto> ''Hi'']]\<rparr>)"
  by (simp add: run_greeting_examples_def py_bind_def greeter_greet_def py_return_def
      print_def Greeter_run Greeter_greet_person_def getattr_def)

subsection \<open>The claims\<close>

text \<open>
  C1: for every name \<open>n\<close>, \<open>greet(n)\<close> returns exactly \<open>"Hello, "\<close> followed by \<open>n\<close>
  followed by \<open>"!"\<close>, whatever the interpreter state; \<open>greet("World")\<close> returns
  \<open>"Hello, World!"\<close>.
\<close>

theorem greet_returns_hello:
  "fst (greet n st) = Inr (''Hello, '' @ n @ ''!'')
   \<and> fst (greet ''World'' st) = Inr ''Hello, World!''"
  by (simp add: greet_def py_return_def fstring_def)

text \<open>
  C2: for every prefix \<open>p\<close> and name \<open>n\<close>, the program that constructs an instance
  with \<open>p\<close> and calls \<open>greet_person\<close> on it with \<open>n\<close> returns exactly \<open>p\<close> followed by
  \<open>", "\<close>, \<open>n\<close> and \<open>"!"\<close>; with \<open>"Hi"\<close> and \<open>"Alice"\<close> it returns \<open>"Hi, Alice!"\<close>.
\<close>

theorem greet_person_returns:
  "fst (py_bind (Redherring p) (\<lambda>self. greet_person self n) st) = Inr (p @ '', '' @ n @ ''!'')
   \<and> fst (py_bind (Redherring ''Hi'') (\<lambda>self. greet_person self ''Alice'') st)
       = Inr ''Hi, Alice!''"
  by (simp add: py_bind_def Redherring_run greet_person_run)

text \<open>
  C3: \<open>sum_numbers\<close> returns the arithmetic sum of the elements of its list, 0 for the
  empty list, and 15 for \<open>[1, 2, 3, 4, 5]\<close>.
\<close>

theorem sum_numbers_sum:
  "fst (sum_numbers xs st) = Inr (sum_list xs)
   \<and> fst (sum_numbers [] st) = Inr 0
   \<and> fst (sum_numbers [1, 2, 3, 4, 5] st) = Inr 15"
  by (simp add: sum_numbers_def py_return_def py_sum_sum_list)

text \<open>
  C4, as amended: for integers \<open>a\<close> and \<open>p\<close> that are not negative, with \<open>a\<close>, \<open>p\<close>
  and \<open>a * p\<close> below \<open>2 ^ 1023\<close>, \<open>calculate_discount(a, p)\<close> returns a finite float
  that is not negative and differs from the exact \<open>a * p / 100\<close> by at most the fraction
  \<open>2 ^ - 51\<close> of it (three roundings: the quotient, the conversion of \<open>a\<close>, the product).
\<close>

theorem calculate_discount_tolerance:
  assumes "0 \<le> a" and "0 \<le> p" and "a < 2 ^ 1023" and "p < 2 ^ 1023" and "a * p < 2 ^ 1023"
  shows "\<exists>r. calculate_discount a p st = (Inr (Finite False r), st)
           \<and> \<bar>r - of_int a * of_int p / 100\<bar> \<le> of_int a * of_int p / 100 / 2 ^ 51"
proof -
  define x q :: rat where "x = of_int a" and "q = of_int p / 100"
  define A Q R where "A = round_binary64 x" and "Q = round_binary64 q"
    and "R = round_binary64 (A * Q)"
  define lo hi :: rat where "lo = 1 - 1 / 2 ^ 53" and "hi = 1 + 1 / 2 ^ 53"
  have lo: "0 \<le> lo" "1 / 4 \<le> lo * lo" "1 - 1 / 2 ^ 51 \<le> lo * lo * lo"
    and hi: "0 \<le> hi" "hi \<le> 2" "hi * hi \<le> 4" "hi * hi * hi \<le> 1 + 1 / 2 ^ 51"
    by (simp_all add: lo_def hi_def)
  have x0: "0 \<le> x" and q0: "0 \<le> q"
    using assms(1,2) by (simp_all add: x_def q_def)
  have xb: "x < 2 ^ 1023"
  proof -
    have "(of_int a :: rat) < of_int (2 ^ 1023)"
      using assms(3) by (simp only: of_int_less_iff)
    then show ?thesis
      by (simp add: x_def)
  qed
  have qb: "q < 2 ^ 1023"
  proof -
    have "(of_int p :: rat) < of_int (2 ^ 1023)"
      using assms(4) by (simp only: of_int_less_iff)
    moreover have "q \<le> of_int p"
      using assms(2) by (simp add: q_def)
    ultimately show ?thesis
      by simp
  qed
  have xq: "x * q * 100 < 2 ^ 1023"
  proof -
    have "(of_int (a * p) :: rat) < of_int (2 ^ 1023)"
      using assms(5) by (simp only: of_int_less_iff)
    then show ?thesis
      by (simp add: x_def q_def)
  qed
  have xr: "x = 0 \<or> 2 powi (- 1022) \<le> x"
  proof (cases "a = 0")
    case True
    then show ?thesis
      by (simp add: x_def)
  next
    case False
    with assms(1) have "1 \<le> a"
      by simp
    then have "1 \<le> x"
      by (simp add: x_def)
    moreover have "(2::rat) powi (- 1022) \<le> 1"
      by (simp add: power_int_minus_divide)
    ultimately show ?thesis
      by linarith
  qed
  have qr: "q = 0 \<or> 2 powi (- 1022) \<le> q"
  proof (cases "p = 0")
    case True
    then show ?thesis
      by (simp add: q_def)
  next
    case False
    with assms(2) have "1 \<le> p"
      by simp
    then have "1 / 100 \<le> q"
      by (simp add: q_def)
    moreover have "(2::rat) powi (- 1022) \<le> 1 / 100"
      by (simp add: power_int_minus_divide)
    ultimately show ?thesis
      by linarith
  qed
  have A: "x * lo \<le> A" "A \<le> x * hi"
    using round_binary64_range [OF xr] by (simp_all only: A_def lo_def hi_def)
  have Q: "q * lo \<le> Q" "Q \<le> q * hi"
    using round_binary64_range [OF qr] by (simp_all only: Q_def lo_def hi_def)
  have A0: "0 \<le> A"
  proof -
    have "0 \<le> x * lo"
      using x0 lo(1) by simp
    then show ?thesis
      using A(1) by (rule order.trans)
  qed
  have Q0: "0 \<le> Q"
  proof -
    have "0 \<le> q * lo"
      using q0 lo(1) by simp
    then show ?thesis
      using Q(1) by (rule order.trans)
  qed
  have AQ_lower: "x * q * (lo * lo) \<le> A * Q"
  proof -
    have "(x * lo) * (q * lo) \<le> A * Q"
      using A(1) Q(1) A0 q0 lo(1) by (intro mult_mono) simp_all
    then show ?thesis
      by (simp add: mult_ac)
  qed
  have AQ_upper: "A * Q \<le> x * q * (hi * hi)"
  proof -
    have "A * Q \<le> (x * hi) * (q * hi)"
      using A(2) Q(2) A0 Q0 x0 q0 hi(1) by (intro mult_mono) simp_all
    then show ?thesis
      by (simp add: mult_ac)
  qed
  have T0: "0 \<le> x * q"
    using x0 q0 by simp
  have AQr: "A * Q = 0 \<or> 2 powi (- 1022) \<le> A * Q"
  proof (cases "a = 0 \<or> p = 0")
    case True
    then have "A = 0 \<or> Q = 0"
      by (auto simp add: A_def Q_def x_def q_def round_binary64_def)
    then show ?thesis
      by auto
  next
    case False
    with assms(1,2) have "1 \<le> a" and "1 \<le> p"
      by simp_all
    then have "1 \<le> x" and "1 / 100 \<le> q"
      by (simp_all add: x_def q_def)
    then have "1 * (1 / 100) \<le> x * q"
      by (intro mult_mono) simp_all
    then have "1 / 100 * (1 / 4) \<le> x * q * (lo * lo)"
      using lo(2) by (intro mult_mono) simp_all
    with AQ_lower have "1 / 400 \<le> A * Q"
      by simp
    moreover have "(2::rat) powi (- 1022) \<le> 1 / 400"
      by (simp add: power_int_minus_divide)
    ultimately show ?thesis
      by linarith
  qed
  have AQb: "A * Q < 2 ^ 1023"
  proof -
    have "x * q * (hi * hi) \<le> x * q * 4"
      using hi(3) T0 by (rule mult_left_mono)
    with AQ_upper have "A * Q \<le> x * q * 4"
      by (rule order.trans)
    with xq T0 show ?thesis
      by linarith
  qed
  have R: "A * Q * lo \<le> R" "R \<le> A * Q * hi"
    using round_binary64_range [OF AQr] by (simp_all only: R_def lo_def hi_def)
  have R_lower: "x * q * (lo * lo * lo) \<le> R"
  proof -
    have "x * q * (lo * lo) * lo \<le> A * Q * lo"
      using AQ_lower lo(1) by (rule mult_right_mono)
    with R(1) show ?thesis
      by (simp add: mult_ac)
  qed
  have R_upper: "R \<le> x * q * (hi * hi * hi)"
  proof -
    have "A * Q * hi \<le> x * q * (hi * hi) * hi"
      using AQ_upper hi(1) by (rule mult_right_mono)
    with R(2) show ?thesis
      by (simp add: mult_ac)
  qed
  define d where "d = x * q / 2 ^ 51"
  have "x * q * (1 - 1 / 2 ^ 51) \<le> x * q * (lo * lo * lo)"
    using lo(3) T0 by (rule mult_left_mono)
  moreover have "x * q * (hi * hi * hi) \<le> x * q * (1 + 1 / 2 ^ 51)"
    using hi(4) T0 by (rule mult_left_mono)
  moreover have "x * q * (1 - 1 / 2 ^ 51) = x * q - d" and "x * q * (1 + 1 / 2 ^ 51) = x * q + d"
    by (simp_all add: d_def algebra_simps)
  ultimately have "x * q - d \<le> R" and "R \<le> x * q + d"
    using R_lower R_upper by linarith+
  then have err: "\<bar>R - x * q\<bar> \<le> d"
    by linarith
  have "calculate_discount a p st = (Inr (Finite False R), st)"
    unfolding R_def A_def Q_def x_def q_def
  proof (rule calculate_discount_value)
    show "0 \<le> a" and "0 \<le> p"
      by (rule assms)+
    show "\<not> 2 ^ 1024 \<le> round_binary64 (of_int p / 100)"
      using round_binary64_no_overflow [OF qr qb] unfolding q_def .
    show "\<not> 2 ^ 1024 \<le> round_binary64 (of_int a)"
      using round_binary64_no_overflow [OF xr xb] unfolding x_def .
    show "\<not> 2 ^ 1024 \<le> round_binary64 (round_binary64 (of_int a) * round_binary64 (of_int p / 100))"
      using round_binary64_no_overflow [OF AQr AQb] unfolding A_def Q_def x_def q_def .
  qed
  moreover have "of_int a * of_int p / 100 = x * q"
    by (simp add: x_def q_def)
  ultimately show ?thesis
    using err by (simp only: d_def) blast
qed

theorem calculate_discount_tolerance_witness:
  "(0::int) \<le> 7 \<and> (0::int) \<le> 33 \<and> (7::int) < 2 ^ 1023 \<and> (33::int) < 2 ^ 1023
   \<and> (7::int) * 33 < 2 ^ 1023
   \<and> (\<exists>r. calculate_discount 7 33 \<lparr>stdout = [], heap = []\<rparr>
              = (Inr (Finite False r), \<lparr>stdout = [], heap = []\<rparr>)
          \<and> \<bar>r - of_int 7 * of_int 33 / 100\<bar> \<le> of_int 7 * of_int 33 / 100 / 2 ^ 51)"
proof -
  have h: "(0::int) \<le> 7" "(0::int) \<le> 33" "(7::int) < 2 ^ 1023" "(33::int) < 2 ^ 1023"
    "(7::int) * 33 < 2 ^ 1023"
    by simp_all
  from h calculate_discount_tolerance [OF h, of "\<lparr>stdout = [], heap = []\<rparr>"]
  show ?thesis
    by blast
qed

text \<open>
  The bound on the arguments is needed: \<open>2 ^ 1024\<close> is too large to convert to a float,
  so the call raises OverflowError instead of returning a value near \<open>2 ^ 1024\<close>.
\<close>

theorem calculate_discount_overflow:
  "fst (calculate_discount (2 ^ 1024) 100 \<lparr>stdout = [], heap = []\<rparr>) = Inl OverflowError"
proof -
  have "int_true_divide 100 100 = Inr (Finite False 1)"
    by (simp add: int_true_divide_def Let_def round_1)
  moreover have "int_to_float (2 ^ 1024) = Inl OverflowError"
    using round_binary64_overflow [of "2 ^ 1024"] by (simp add: int_to_float_def Let_def)
  ultimately show ?thesis
    by (simp add: calculate_discount_def py_bind_def py_lift_def int_mul_float_def)
qed

text \<open>
  C5: \<open>calculate_discount(200, 15)\<close> returns exactly the float \<open>30.0\<close>: the quotient
  \<open>15 / 100\<close> rounds to the float next to 0.15, and 200 times that float rounds to 30.
\<close>

theorem calculate_discount_200_15:
  "fst (calculate_discount 200 15 st) = Inr (Finite False 30)"
  by (simp add: calculate_discount_def py_bind_def py_lift_def true_divide_15_100
      int_mul_float_200)

text \<open>
  C6, as amended: the greeting of an instance is set at construction, and
  \<^verbatim>\<open>greet_person\<close> never changes it. Right after the construction with \<open>p\<close> the
  attribute reads \<open>p\<close>; it still reads \<open>p\<close> after \<^verbatim>\<open>greet_person\<close> was called on the
  instance with each name of any list; and a call of \<^verbatim>\<open>greet_person\<close>, on any instance
  with any name, in any state, leaves the whole state (every attribute of every instance)
  as it was. Nothing is said of the other ways to reach the attribute.
\<close>

theorem greeting_set_at_construction:
  "fst (py_bind (Redherring p) (\<lambda>self. getattr self ''greeting'') st) = Inr p
   \<and> fst (py_bind (Redherring p) (\<lambda>self.
            py_bind (greet_each self names) (\<lambda>_. getattr self ''greeting'')) st) = Inr p
   \<and> snd (greet_person self n st) = st
   \<and> snd (greet_each self names st) = st"
proof -
  let ?st1 = "st\<lparr>heap := heap st @ [[''greeting'' \<mapsto> p]]\<rparr>"
  let ?self = "length (heap st)"
  have stored: "getattr ?self ''greeting'' ?st1 = (Inr p, ?st1)"
    by (simp add: getattr_def)
  have "greet_each ?self names ?st1 = (Inr (), ?st1)"
    by (rule greet_each_stored [where g = p]) simp_all
  then show ?thesis
    by (simp add: py_bind_def Redherring_run stored greet_person_state greet_each_state)
qed

text \<open>
  The class has no means to make the greeting immutable: \<^verbatim>\<open>__init__\<close> is a public
  method and the attribute is a public one. Running \<^verbatim>\<open>__init__\<close> again on an instance
  that was constructed with \<open>"Hi"\<close> replaces the stored greeting, which then reads
  \<open>"Yo"\<close>, and \<^verbatim>\<open>greet_person\<close> answers with the new one.
\<close>

theorem init_again_replaces_greeting:
  "fst (py_bind (Redherring ''Hi'') (\<lambda>self.
        py_bind (Redherring_init self ''Yo'') (\<lambda>_. getattr self ''greeting''))
        \<lparr>stdout = [], heap = []\<rparr>) = Inr ''Yo''
   \<and> fst (py_bind (Redherring ''Hi'') (\<lambda>self.
        py_bind (Redherring_init self ''Yo'') (\<lambda>_. greet_person self ''Alice''))
        \<lparr>stdout = [], heap = []\<rparr>) = Inr ''Yo, Alice!''"
  by (simp add: py_bind_def Redherring_run Redherring_init_def setattr_def getattr_def
      greet_person_run)

text \<open>
  C7: the script prints, in this order, the lines \<open>Hello, World!\<close>, \<open>Hi, Alice!\<close>,
  \<open>30.0\<close> and \<open>15\<close>, and ends without an exception. The four operations it calls are
  those of the module \<open>greeter\<close> as the specification describes them.
\<close>

theorem main_py_prints:
  "fst (main_py st) = Inr ()
   \<and> stdout (snd (main_py st))
       = stdout st @ ''Hello, World!'' @ [CHR 0x0A] @ ''Hi, Alice!'' @ [CHR 0x0A]
         @ ''30.0'' @ [CHR 0x0A] @ ''15'' @ [CHR 0x0A]"
  by (simp add: main_py_def py_bind_def run_greeting_examples_run
      greeter_calculate_discount_def py_lift_def true_divide_15_100 int_mul_float_200
      print_def repr_30 greeter_sum_numbers_def py_return_def str_15)

text \<open>
  C8: each of the four operations is deterministic and free of side effects. A call
  returns the state it was given, and its result is the same in every state; for
  \<open>greet_person\<close> the result is the same for any two instances, in any two states,
  that store the same greeting.
\<close>

theorem operations_leave_state:
  "greet n st = (fst (greet n st'), st)
   \<and> calculate_discount a p st = (fst (calculate_discount a p st'), st)
   \<and> sum_numbers xs st = (fst (sum_numbers xs st'), st)
   \<and> snd (greet_person self n st) = st
   \<and> (fst (getattr self ''greeting'' st) = fst (getattr self' ''greeting'' st')
        \<longrightarrow> fst (greet_person self n st) = fst (greet_person self' n st'))"
proof -
  have "calculate_discount a p st = (fst (calculate_discount a p st'), st)"
    by (cases "int_true_divide p 100")
      (simp_all add: calculate_discount_def py_bind_def py_lift_def)
  moreover have "fst (greet_person self n st) = fst (greet_person self' n st')"
    if "fst (getattr self ''greeting'' st) = fst (getattr self' ''greeting'' st')"
    using that
    by (auto simp add: greet_person_def py_bind_def py_return_def getattr_def
        split: option.splits if_splits)
  ultimately show ?thesis
    by (simp add: greet_def sum_numbers_def py_return_def greet_person_state)
qed

theorem operations_leave_state_witness:
  "fst (getattr 0 ''greeting'' \<lparr>stdout = [], heap = [[''greeting'' \<mapsto> ''Hi'']]\<rparr>)
     = fst (getattr 1 ''greeting''
         \<lparr>stdout = ''x'', heap = [Map.empty, [''greeting'' \<mapsto> ''Hi'']]\<rparr>)
   \<and> fst (greet_person 0 ''Alice'' \<lparr>stdout = [], heap = [[''greeting'' \<mapsto> ''Hi'']]\<rparr>)
     = fst (greet_person 1 ''Alice''
         \<lparr>stdout = ''x'', heap = [Map.empty, [''greeting'' \<mapsto> ''Hi'']]\<rparr>)
   \<and> fst (greet_person 0 ''Alice'' \<lparr>stdout = [], heap = [[''greeting'' \<mapsto> ''Hi'']]\<rparr>)
     = Inr ''Hi, Alice!''"
proof -
  let ?s = "\<lparr>stdout = [], heap = [[''greeting'' \<mapsto> ''Hi'']]\<rparr>"
  let ?t = "\<lparr>stdout = ''x'', heap = [Map.empty, [''greeting'' \<mapsto> ''Hi'']]\<rparr>"
  have h: "fst (getattr 0 ''greeting'' ?s) = fst (getattr 1 ''greeting'' ?t)"
    by (simp add: getattr_def)
  have r: "fst (greet_person 0 ''Alice'' ?s) = Inr ''Hi, Alice!''"
    by (simp add: greet_person_def getattr_def py_bind_def py_return_def fstring_def)
  from h r
    operations_leave_state [where self = 0 and self' = 1 and st = ?s and st' = ?t
      and n = "''Alice''"]
  show ?thesis
    by blast
qed

text \<open>
  C9: for every name \<open>n\<close>, \<open>greet(n)\<close> returns what \<open>greet_person\<close> returns for \<open>n\<close> on
  an instance constructed with \<open>"Hello"\<close>.
\<close>

theorem greet_is_hello_instance:
  "fst (greet n st) = fst (py_bind (Redherring ''Hello'') (\<lambda>self. greet_person self n) st)"
  by (simp add: greet_def py_return_def fstring_def py_bind_def Redherring_run greet_person_run)

text \<open>
  C10: \<open>sum_numbers\<close> maps concatenation to addition: the call on \<open>xs @ ys\<close> returns
  what the program that calls it on \<open>xs\<close> and on \<open>ys\<close> and adds the two results
  returns. Two lists with the same elements, in any order, have the same result.
\<close>

theorem sum_numbers_append:
  "fst (sum_numbers (xs @ ys) st)
     = fst (py_bind (sum_numbers xs) (\<lambda>a.
            py_bind (sum_numbers ys) (\<lambda>b. py_return (a + b))) st)
   \<and> (mset xs = mset ys \<longrightarrow> fst (sum_numbers xs st) = fst (sum_numbers ys st))"
proof -
  have "sum_list xs = sum_list ys" if "mset xs = mset ys"
    using that by (metis sum_mset_sum_list)
  then show ?thesis
    by (simp add: sum_numbers_def py_return_def py_bind_def py_sum_sum_list)
qed

theorem sum_numbers_append_witness:
  "mset [1, 2, 3 :: int] = mset [3, 1, 2]
   \<and> fst (sum_numbers [1, 2, 3] \<lparr>stdout = [], heap = []\<rparr>)
       = fst (sum_numbers [3, 1, 2] \<lparr>stdout = [], heap = []\<rparr>)"
proof -
  have h: "mset [1, 2, 3 :: int] = mset [3, 1, 2]"
    by simp
  with sum_numbers_append [of "[1, 2, 3]" "[3, 1, 2]" "\<lparr>stdout = [], heap = []\<rparr>"]
  show ?thesis
    by blast
qed

end
